theory Spec2Isabelle
  imports Complex_Main
begin

section \<open>LQR trajectory tracking: the control-law core of LQR\_Dynamics\_Model.py\<close>

text \<open>
  The embedding follows \<^verbatim>\<open>src/Control/LQR_Dynamics_Model.py\<close>. Python floats are read as
  the real numbers (no rounding, no NaN, no infinities); Python exceptions are values of
  \<open>py_error\<close>, and a function that can raise returns \<open>py_error + 'a\<close>. Attribute names
  that would capture ordinary variable names in Isabelle carry a prefix: the attributes of
  \<^verbatim>\<open>VehicleState\<close> are \<open>vs_x\<close>, \<open>vs_y\<close>, ..., those of \<^verbatim>\<open>TrajectoryAnalyzer\<close>
  are \<open>ta_x\<close> (for \<^verbatim>\<open>x_\<close>), \<open>ta_y\<close>, ...
\<close>

subsection \<open>Errors, gears and configuration\<close>

datatype py_error = ZeroDivisionError | ValueError | IndexError | LinAlgError | AssertionError

datatype Gear = GEAR_DRIVE | GEAR_REVERSE

text \<open>
  The module \<^verbatim>\<open>Control.lateral_controller_conf\<close> (imported with \<^verbatim>\<open>import *\<close>) is not part
  of the sources at hand; the constants the modelled functions read from it are the fields
  of a configuration record that every such function takes as its first argument.
\<close>

record conf =
  ts :: real
  l_f :: real
  l_r :: real
  c_f :: real
  c_r :: real
  m_f :: real
  m_r :: real
  max_steer_angle :: real
  max_acceleration :: real
  max_speed :: real

text \<open>Python's float division: a zero divisor raises.\<close>

definition fdiv :: "real \<Rightarrow> real \<Rightarrow> py_error + real" where
  "fdiv a b = (if b = 0 then Inl ZeroDivisionError else Inr (a / b))"

subsection \<open>VehicleState\<close>

record VehicleState =
  vs_x :: real
  vs_y :: real
  vs_yaw :: real
  vs_v :: real
  vs_e_cg :: real
  vs_theta_e :: real
  vs_gear :: Gear

definition VehicleState_init :: "real \<Rightarrow> real \<Rightarrow> real \<Rightarrow> real \<Rightarrow> Gear \<Rightarrow> VehicleState" where
  "VehicleState_init x0 y0 yaw0 v0 g =
     \<lparr>vs_x = x0, vs_y = y0, vs_yaw = yaw0, vs_v = v0, vs_e_cg = 0, vs_theta_e = 0, vs_gear = g\<rparr>"

definition RegulateInput :: "conf \<Rightarrow> real \<Rightarrow> real \<Rightarrow> real \<times> real" where
  "RegulateInput c delta a =
     (let delta1 = (if delta < -1 * max_steer_angle c then -1 * max_steer_angle c else delta);
          delta2 = (if delta1 > 1 * max_steer_angle c then 1 * max_steer_angle c else delta1);
          a1 = (if a < -1 * max_acceleration c then -1 * max_acceleration c else a);
          a2 = (if a1 > 1 * max_acceleration c then 1 * max_acceleration c else a1)
      in (delta2, a2))"

definition RegulateOutput :: "conf \<Rightarrow> real \<Rightarrow> real" where
  "RegulateOutput c v0 =
     (let max_speed' = max_speed c / 3.6;
          v1 = (if v0 < -1 * max_speed' then -1 * max_speed' else v0);
          v2 = (if v1 > 1 * max_speed' then 1 * max_speed' else v1)
      in v2)"

text \<open>
  \<^verbatim>\<open>UpdateVehicleState\<close> mutates the object in the order of the source: gear, x, y, then
  yaw, whose division by the wheelbase raises when the wheelbase is zero. The exception
  leaves the object half updated; the model returns the error alone, and nothing below
  reads the state after a failed update.
\<close>

definition UpdateVehicleState ::
  "conf \<Rightarrow> VehicleState \<Rightarrow> real \<Rightarrow> real \<Rightarrow> real \<Rightarrow> real \<Rightarrow> Gear \<Rightarrow> py_error + VehicleState" where
  "UpdateVehicleState c s delta a e_cg theta_e g =
     (let wheelbase = l_r c + l_f c;
          (delta', a') = RegulateInput c delta a
      in case fdiv (vs_v s) wheelbase of
           Inl e \<Rightarrow> Inl e
         | Inr q \<Rightarrow>
             let v1 = (if g = GEAR_DRIVE then vs_v s + a' * ts c
                       else vs_v s + -1 * a' * ts c)
             in Inr \<lparr>vs_x = vs_x s + vs_v s * cos (vs_yaw s) * ts c,
                     vs_y = vs_y s + vs_v s * sin (vs_yaw s) * ts c,
                     vs_yaw = vs_yaw s + q * tan delta' * ts c,
                     vs_v = RegulateOutput c v1,
                     vs_e_cg = e_cg,
                     vs_theta_e = theta_e,
                     vs_gear = g\<rparr>)"

subsection \<open>LonController\<close>

definition Lon_ComputeControlCommand :: "real \<Rightarrow> VehicleState \<Rightarrow> real \<Rightarrow> real" where
  "Lon_ComputeControlCommand target_speed s dist_goal =
     (let a = 0.3 * (target_speed - vs_v s)
      in if dist_goal < 11.0
         then (if vs_v s > 2.0 then -3.0
               else if vs_v s < -2 then -1.0
               else a)
         else a)"

subsection \<open>pi\_2\_pi\<close>

definition pi_2_pi :: "real \<Rightarrow> real" where
  "pi_2_pi angle =
     (if angle > pi then angle - 2.0 * pi
      else if angle < -pi then angle + 2.0 * pi
      else angle)"

subsection \<open>TrajectoryAnalyzer\<close>

text \<open>
  The four reference arrays are lists; the cursor \<^verbatim>\<open>ind_old\<close> starts at 0 and only ever
  has an index added to it, so it is a natural number.
\<close>

record TrajectoryAnalyzer =
  ta_x :: "real list"
  ta_y :: "real list"
  ta_yaw :: "real list"
  ta_k :: "real list"
  ind_old :: nat
  ind_end :: nat

definition TrajectoryAnalyzer_init ::
  "real list \<Rightarrow> real list \<Rightarrow> real list \<Rightarrow> real list \<Rightarrow> TrajectoryAnalyzer" where
  "TrajectoryAnalyzer_init xs ys yaws ks =
     \<lparr>ta_x = xs, ta_y = ys, ta_yaw = yaws, ta_k = ks, ind_old = 0, ind_end = length xs\<rparr>"

text \<open>Python's \<^verbatim>\<open>xs[i:j]\<close> for non-negative bounds; a slice never raises.\<close>

definition slice :: "'a list \<Rightarrow> nat \<Rightarrow> nat \<Rightarrow> 'a list" where
  "slice xs i j = drop i (take j xs)"

text \<open>Python's \<^verbatim>\<open>xs[i]\<close> for a non-negative index.\<close>

definition getitem :: "'a list \<Rightarrow> nat \<Rightarrow> py_error + 'a" where
  "getitem xs i = (if i < length xs then Inr (xs ! i) else Inl IndexError)"

definition hypot :: "real \<Rightarrow> real \<Rightarrow> real" where
  "hypot a b = sqrt (a * a + b * b)"

text \<open>
  \<^verbatim>\<open>np.hypot\<close> on two one-dimensional arrays: elementwise on equal lengths, a
  one-element array is broadcast against the other, any other pair of lengths raises.
\<close>

definition np_hypot :: "real list \<Rightarrow> real list \<Rightarrow> py_error + real list" where
  "np_hypot dx dy =
     (if length dx = length dy then Inr (map2 hypot dx dy)
      else if length dx = 1 then Inr (map (hypot (hd dx)) dy)
      else if length dy = 1 then Inr (map (\<lambda>a. hypot a (hd dy)) dx)
      else Inl ValueError)"

text \<open>The index of the first occurrence of the minimum.\<close>

fun argmin :: "real list \<Rightarrow> nat" where
  "argmin [] = 0"
| "argmin [a] = 0"
| "argmin (a # b # bs) =
     (let j = argmin (b # bs) in if a \<le> (b # bs) ! j then 0 else Suc j)"

text \<open>\<^verbatim>\<open>np.argmin\<close> raises on an empty array.\<close>

definition np_argmin :: "real list \<Rightarrow> py_error + nat" where
  "np_argmin ds = (if ds = [] then Inl ValueError else Inr (argmin ds))"

text \<open>
  \<^verbatim>\<open>ToTrajectoryFrame\<close> returns its result or the exception raised, together with the
  analyzer as the call leaves it: the cursor is advanced before \<^verbatim>\<open>yaw_\<close> and \<^verbatim>\<open>k_\<close> are
  read, so an \<^verbatim>\<open>IndexError\<close> at those reads leaves the advanced cursor behind.
\<close>

definition ToTrajectoryFrame ::
  "TrajectoryAnalyzer \<Rightarrow> VehicleState
     \<Rightarrow> (py_error + real \<times> real \<times> real \<times> real) \<times> TrajectoryAnalyzer" where
  "ToTrajectoryFrame ta s =
     (let x_cg = vs_x s; y_cg = vs_y s; yaw = vs_yaw s;
          dx = map (\<lambda>ix. x_cg - ix) (slice (ta_x ta) (ind_old ta) (ind_end ta));
          dy = map (\<lambda>iy. y_cg - iy) (slice (ta_y ta) (ind_old ta) (ind_end ta))
      in case np_hypot dx dy of
           Inl e \<Rightarrow> (Inl e, ta)
         | Inr ds \<Rightarrow>
         (case np_argmin ds of
           Inl e \<Rightarrow> (Inl e, ta)
         | Inr ind_add \<Rightarrow>
         (case getitem dx ind_add of
           Inl e \<Rightarrow> (Inl e, ta)
         | Inr dxi \<Rightarrow>
         (case getitem dy ind_add of
           Inl e \<Rightarrow> (Inl e, ta)
         | Inr dyi \<Rightarrow>
             let d = hypot dxi dyi;
                 e_cg = (if cos (yaw + pi / 2.0) * dxi + sin (yaw + pi / 2.0) * dyi > 0.0
                         then 1.0 * d else -1.0 * d);
                 ta' = ta\<lparr>ind_old := ind_old ta + ind_add\<rparr>
             in (case getitem (ta_yaw ta') (ind_old ta') of
                   Inl e \<Rightarrow> (Inl e, ta')
                 | Inr yaw_ref \<Rightarrow>
                     let theta_e = pi_2_pi (yaw - yaw_ref)
                     in (case getitem (ta_k ta') (ind_old ta') of
                           Inl e \<Rightarrow> (Inl e, ta')
                         | Inr k_ref \<Rightarrow> (Inr (theta_e, e_cg, yaw_ref, k_ref), ta')))))))"

text \<open>
  A sequence of calls on one analyzer, one per vehicle state: the results in order and the
  analyzer after the last call. A caller that catches an exception keeps the analyzer.
\<close>

fun ToTrajectoryFrame_calls ::
  "TrajectoryAnalyzer \<Rightarrow> VehicleState list
     \<Rightarrow> (py_error + real \<times> real \<times> real \<times> real) list \<times> TrajectoryAnalyzer" where
  "ToTrajectoryFrame_calls ta [] = ([], ta)"
| "ToTrajectoryFrame_calls ta (s # ss) =
     (let (r, ta') = ToTrajectoryFrame ta s;
          (rs, ta'') = ToTrajectoryFrame_calls ta' ss
      in (r # rs, ta''))"

text \<open>The cursor after each call of such a sequence.\<close>

fun cursor_trace :: "TrajectoryAnalyzer \<Rightarrow> VehicleState list \<Rightarrow> nat list" where
  "cursor_trace ta [] = []"
| "cursor_trace ta (s # ss) =
     (let ta' = snd (ToTrajectoryFrame ta s) in ind_old ta' # cursor_trace ta' ss)"

text \<open>
  The distances from the vehicle to the points of the search suffix, pairing the sliced
  \<^verbatim>\<open>x_\<close> and \<^verbatim>\<open>y_\<close> arrays, and what it means for an index to be the first position
  of the minimum of a list. Both are used to state what a call does to the cursor.
\<close>

definition suffix_dists :: "TrajectoryAnalyzer \<Rightarrow> VehicleState \<Rightarrow> real list" where
  "suffix_dists ta s =
     map2 (\<lambda>ix iy. hypot (vs_x s - ix) (vs_y s - iy))
       (slice (ta_x ta) (ind_old ta) (ind_end ta)) (slice (ta_y ta) (ind_old ta) (ind_end ta))"

definition first_min_index :: "real list \<Rightarrow> nat \<Rightarrow> bool" where
  "first_min_index ds i =
     (i < length ds \<and> (\<forall>j < length ds. ds ! i \<le> ds ! j) \<and> (\<forall>j < i. ds ! i < ds ! j))"

text \<open>A three-point path along the x axis, used to run the analyzer on numbers.\<close>

definition ta_example :: TrajectoryAnalyzer where
  "ta_example = TrajectoryAnalyzer_init [0, 1, 2] [0, 0, 0] [0, 0, 0] [0.1, 0.2, 0.3]"

subsection \<open>LatController.ComputeFeedForward\<close>

text \<open>
  The feedback matrix is a list of rows; \<^verbatim>\<open>matrix_k_[0][2]\<close> raises when the entry is
  missing. The understeer gradient \<^verbatim>\<open>kv\<close> is computed before the gear is looked at, and
  its divisions raise on a zero divisor in either gear.
\<close>

definition ebind :: "'e + 'a \<Rightarrow> ('a \<Rightarrow> 'e + 'b) \<Rightarrow> 'e + 'b" where
  "ebind m f = (case m of Inl e \<Rightarrow> Inl e | Inr a \<Rightarrow> f a)"

definition ComputeFeedForward ::
  "conf \<Rightarrow> VehicleState \<Rightarrow> real \<Rightarrow> real list list \<Rightarrow> py_error + real" where
  "ComputeFeedForward c s ref_curvature matrix_k =
     (let mass = m_f c + m_r c;
          wheelbase = l_f c + l_r c
      in ebind (fdiv (l_r c * mass / 2.0) (c_f c)) (\<lambda>q1.
         ebind (fdiv q1 wheelbase) (\<lambda>q2.
         ebind (fdiv (l_f c * mass / 2.0) (c_r c)) (\<lambda>q3.
         ebind (fdiv q3 wheelbase) (\<lambda>q4.
           let kv = q2 - q4; v = vs_v s
           in if vs_gear s = GEAR_REVERSE then Inr (wheelbase * ref_curvature)
              else ebind (getitem matrix_k 0) (\<lambda>row0.
                   ebind (getitem row0 2) (\<lambda>k02.
                   ebind (fdiv (l_f c * mass * v * v * ref_curvature / 2.0) (c_r c)) (\<lambda>q5.
                   ebind (fdiv q5 wheelbase) (\<lambda>q6.
                     Inr (wheelbase * ref_curvature + kv * v * v * ref_curvature
                          - k02 * (l_r c * ref_curvature - q6)))))))))))"

text \<open>A configuration with a wheelbase of 2.8 m, used to run the functions on numbers.\<close>

definition conf_example :: conf where
  "conf_example =
     \<lparr>ts = 0.1, l_f = 1.4, l_r = 1.4, c_f = 155494.663, c_r = 155494.663,
      m_f = 570, m_r = 570, max_steer_angle = 0.5, max_acceleration = 5, max_speed = 55\<rparr>"

subsection \<open>LatController.SolveLQRProblem\<close>

text \<open>
  A two-dimensional array is the list of its rows, all of one length; arrays with a zero
  dimension are not represented. \<open>nrows\<close> and \<open>ncols\<close> are \<^verbatim>\<open>np.size(A, 0)\<close> and
  \<^verbatim>\<open>np.size(A, 1)\<close>, \<open>mat_T\<close> is \<^verbatim>\<open>.T\<close>, \<open>matmul\<close> is \<^verbatim>\<open>@\<close>, \<open>mat_add\<close> and \<open>mat_sub\<close>
  are \<^verbatim>\<open>+\<close> and \<^verbatim>\<open>-\<close> on arrays of one shape, and \<open>max_abs\<close> is \<^verbatim>\<open>abs(...).max()\<close>,
  which raises on an array without entries. The assertion at the entry of the solver makes
  the shapes of all its products and sums agree, so that these operations do not raise
  there.
\<close>

type_synonym mat = "real list list"

definition nrows :: "mat \<Rightarrow> nat" where
  "nrows A = length A"

definition ncols :: "mat \<Rightarrow> nat" where
  "ncols A = (case A of [] \<Rightarrow> 0 | r # _ \<Rightarrow> length r)"

definition col :: "mat \<Rightarrow> nat \<Rightarrow> real list" where
  "col A j = map (\<lambda>r. r ! j) A"

definition mat_T :: "mat \<Rightarrow> mat" where
  "mat_T A = map (col A) [0..<ncols A]"

definition dot :: "real list \<Rightarrow> real list \<Rightarrow> real" where
  "dot u w = sum_list (map2 (*) u w)"

definition matmul :: "mat \<Rightarrow> mat \<Rightarrow> mat" where
  "matmul A B = map (\<lambda>r. map (\<lambda>j. dot r (col B j)) [0..<ncols B]) A"

definition mat_add :: "mat \<Rightarrow> mat \<Rightarrow> mat" where
  "mat_add A B = map2 (map2 (+)) A B"

definition mat_sub :: "mat \<Rightarrow> mat \<Rightarrow> mat" where
  "mat_sub A B = map2 (map2 (-)) A B"

definition zeros :: "nat \<Rightarrow> nat \<Rightarrow> mat" where
  "zeros n m = replicate n (replicate m 0)"

definition abs_max :: "mat \<Rightarrow> real" where
  "abs_max A = (case concat A of [] \<Rightarrow> 0 | e # es \<Rightarrow> fold (\<lambda>a b. max b \<bar>a\<bar>) es \<bar>e\<bar>)"

definition max_abs :: "mat \<Rightarrow> py_error + real" where
  "max_abs A = (if concat A = [] then Inl ValueError else Inr (abs_max A))"

text \<open>
  \<^verbatim>\<open>diff\<close> starts as \<^verbatim>\<open>math.inf\<close>, here \<open>None\<close>, which exceeds every tolerance; afterwards
  it is the change of the last iteration.
\<close>

definition exceeds :: "real option \<Rightarrow> real \<Rightarrow> bool" where
  "exceeds d tolerance = (case d of None \<Rightarrow> True | Some x \<Rightarrow> x > tolerance)"

text \<open>
  The body of the loop computes \<^verbatim>\<open>P_next\<close>. The two inverses come from \<^verbatim>\<open>numpy.linalg\<close>
  and are arguments of the model: \<open>pinv\<close> for \<^verbatim>\<open>np.linalg.pinv\<close>, which always returns,
  and \<open>linalg_inv\<close> for \<^verbatim>\<open>np.linalg.inv\<close>, which raises \<^verbatim>\<open>LinAlgError\<close> on a singular
  matrix.
\<close>

definition riccati_step :: "(mat \<Rightarrow> mat) \<Rightarrow> mat \<Rightarrow> mat \<Rightarrow> mat \<Rightarrow> mat \<Rightarrow> mat \<Rightarrow> mat \<Rightarrow> mat" where
  "riccati_step pinv A B Q R M P =
     (let AT = mat_T A; BT = mat_T B; MT = mat_T M
      in mat_add
           (mat_sub (matmul (matmul AT P) A)
              (matmul (matmul (mat_add (matmul (matmul AT P) B) M)
                         (pinv (mat_add R (matmul (matmul BT P) B))))
                 (mat_add (matmul (matmul BT P) A) MT)))
           Q)"

text \<open>
  The \<^verbatim>\<open>while\<close> loop, with the state \<^verbatim>\<open>P\<close>, \<^verbatim>\<open>num_iteration\<close>, \<^verbatim>\<open>diff\<close>; the counter
  bounds the number of iterations, so the loop always ends.
\<close>

function riccati_loop ::
  "(mat \<Rightarrow> mat) \<Rightarrow> mat \<Rightarrow> mat \<Rightarrow> mat \<Rightarrow> mat \<Rightarrow> mat \<Rightarrow> real \<Rightarrow> int
     \<Rightarrow> mat \<Rightarrow> nat \<Rightarrow> real option \<Rightarrow> py_error + mat \<times> nat \<times> real option" where
  "riccati_loop pinv A B Q R M tolerance max_num_iteration P num_iteration diff =
     (if int num_iteration < max_num_iteration \<and> exceeds diff tolerance
      then (let P_next = riccati_step pinv A B Q R M P
            in case max_abs (mat_sub P_next P) of
                 Inl e \<Rightarrow> Inl e
               | Inr d \<Rightarrow>
                   riccati_loop pinv A B Q R M tolerance max_num_iteration
                     P_next (num_iteration + 1) (Some d))
      else Inr (P, num_iteration, diff))"
  by pat_completeness auto
termination
  by (relation "measure (\<lambda>(pinv, A, B, Q, R, M, tolerance, max_num_iteration, P, num_iteration, diff).
        nat (max_num_iteration - int num_iteration))") auto

declare riccati_loop.simps [simp del]

text \<open>
  The assertion on the dimensions, the loop from \<^verbatim>\<open>P = Q\<close>, and the gain. The warning
  printed when the iteration cap is reached has no effect on the result and is left out.
\<close>

definition SolveLQRProblem ::
  "(mat \<Rightarrow> mat) \<Rightarrow> (mat \<Rightarrow> py_error + mat) \<Rightarrow> mat \<Rightarrow> mat \<Rightarrow> mat \<Rightarrow> mat \<Rightarrow> real \<Rightarrow> int
     \<Rightarrow> py_error + mat" where
  "SolveLQRProblem pinv linalg_inv A B Q R tolerance max_num_iteration =
     (if \<not> (nrows A = ncols A \<and> nrows B = nrows A \<and> nrows Q = ncols Q
             \<and> nrows Q = ncols A \<and> nrows R = ncols R \<and> nrows R = ncols B)
      then Inl AssertionError
      else
        let M = zeros (nrows Q) (ncols R);
            AT = mat_T A; BT = mat_T B; MT = mat_T M
        in ebind (riccati_loop pinv A B Q R M tolerance max_num_iteration Q 0 None)
             (\<lambda>(P, num_iteration, diff).
                ebind (linalg_inv (mat_add (matmul (matmul BT P) B) R))
                  (\<lambda>I. Inr (matmul I (mat_add (matmul (matmul BT P) A) MT)))))"

text \<open>
  The two inverses on a 1 x 1 matrix, the shape of \<^verbatim>\<open>R + BT @ P @ B\<close> for a single input:
  the pseudo-inverse of \<open>[[a]]\<close> is \<open>[[1 / a]]\<close>, and \<open>[[0]]\<close> for \<open>a = 0\<close>, where the
  inverse raises. They are used to run the solver on numbers.
\<close>

definition pinv_1x1 :: "mat \<Rightarrow> mat" where
  "pinv_1x1 X = (case X of [[a]] \<Rightarrow> [[if a = 0 then 0 else 1 / a]] | _ \<Rightarrow> X)"

definition inv_1x1 :: "mat \<Rightarrow> py_error + mat" where
  "inv_1x1 X = (case X of [[a]] \<Rightarrow> (if a = 0 then Inl LinAlgError else Inr [[1 / a]])
                | _ \<Rightarrow> Inl LinAlgError)"

lemmas mat_defs = nrows_def ncols_def col_def mat_T_def dot_def matmul_def mat_add_def
  mat_sub_def zeros_def max_abs_def abs_max_def exceeds_def riccati_step_def pinv_1x1_def inv_1x1_def

subsection \<open>The Riccati iteration as a sequence of iterates\<close>

text \<open>
  \<open>is_mat n m A\<close>: \<open>A\<close> is an \<open>n\<close> by \<open>m\<close> array. \<open>keeps_shape m f\<close>: \<open>f\<close> returns an
  \<open>m\<close> by \<open>m\<close> array on such an array, as the pseudo-inverse does.
\<close>

definition is_mat :: "nat \<Rightarrow> nat \<Rightarrow> mat \<Rightarrow> bool" where
  "is_mat n m A = (length A = n \<and> (\<forall>r \<in> set A. length r = m))"

definition keeps_shape :: "nat \<Rightarrow> (mat \<Rightarrow> mat) \<Rightarrow> bool" where
  "keeps_shape m f = (\<forall>X. is_mat m m X \<longrightarrow> is_mat m m (f X))"

text \<open>
  The update \<open>P' = A\<^sup>T P A - A\<^sup>T P B (R + B\<^sup>T P B)\<^sup>+ B\<^sup>T P A + Q\<close> without the cross
  term, the sequence of iterates from \<open>P\<^sub>0 = Q\<close>, the largest absolute elementwise change
  between the iterates \<open>k - 1\<close> and \<open>k\<close>, and the index at which the iteration stops: the
  first index from 1 on whose change does not exceed the tolerance (it may equal the
  tolerance), or the iteration cap when that comes first (0 for a cap that is not
  positive).
\<close>

definition spec_update :: "(mat \<Rightarrow> mat) \<Rightarrow> mat \<Rightarrow> mat \<Rightarrow> mat \<Rightarrow> mat \<Rightarrow> mat \<Rightarrow> mat" where
  "spec_update pinv A B Q R P =
     mat_add
       (mat_sub (matmul (matmul (mat_T A) P) A)
          (matmul (matmul (matmul (matmul (mat_T A) P) B)
                     (pinv (mat_add R (matmul (matmul (mat_T B) P) B))))
             (matmul (matmul (mat_T B) P) A)))
       Q"

primrec spec_P :: "(mat \<Rightarrow> mat) \<Rightarrow> mat \<Rightarrow> mat \<Rightarrow> mat \<Rightarrow> mat \<Rightarrow> nat \<Rightarrow> mat" where
  "spec_P pinv A B Q R 0 = Q"
| "spec_P pinv A B Q R (Suc k) = spec_update pinv A B Q R (spec_P pinv A B Q R k)"

definition spec_change :: "(mat \<Rightarrow> mat) \<Rightarrow> mat \<Rightarrow> mat \<Rightarrow> mat \<Rightarrow> mat \<Rightarrow> nat \<Rightarrow> real" where
  "spec_change pinv A B Q R k =
     abs_max (mat_sub (spec_P pinv A B Q R k) (spec_P pinv A B Q R (k - 1)))"

definition stops_at :: "(nat \<Rightarrow> real) \<Rightarrow> real \<Rightarrow> int \<Rightarrow> nat \<Rightarrow> bool" where
  "stops_at change tolerance max_num_iteration N =
     (int N \<le> max 0 max_num_iteration
      \<and> (max_num_iteration \<le> int N \<or> (1 \<le> N \<and> change N \<le> tolerance))
      \<and> (\<forall>k. 1 \<le> k \<and> k < N \<longrightarrow> tolerance < change k))"

section \<open>Theorems\<close>

subsection \<open>Longitudinal controller\<close>

text \<open>
  C6. For every target speed, vehicle state and distance, the longitudinal command is the
  proportional term \<open>0.3 * (target_speed - v)\<close>, except that below the stopping distance
  11.0 it is the fixed braking deceleration \<open>-3.0\<close> when \<open>v > 2.0\<close> and the gentler
  \<open>-1.0\<close> when \<open>v < -2.0\<close>; in particular a distance of 5 at speed 10 gives \<open>-3.0\<close>.
\<close>

theorem Lon_ComputeControlCommand_cases:
  "Lon_ComputeControlCommand target_speed s dist_goal =
     (if dist_goal < 11 \<and> vs_v s > 2 then -3
      else if dist_goal < 11 \<and> vs_v s < -2 then -1
      else 0.3 * (target_speed - vs_v s))
   \<and> Lon_ComputeControlCommand target_speed (VehicleState_init x0 y0 yaw0 10 g) 5 = -3"
  by (simp add: Lon_ComputeControlCommand_def VehicleState_init_def Let_def)

text \<open>
  C10. Below the stopping distance, a speed in the closed band from \<open>-2.0\<close> to \<open>2.0\<close>
  leaves the proportional term in place: the braking override does not engage there.
\<close>

theorem Lon_dead_band:
  assumes "dist_goal < 11" and "-2 \<le> vs_v s" and "vs_v s \<le> 2"
  shows "Lon_ComputeControlCommand target_speed s dist_goal = 0.3 * (target_speed - vs_v s)"
  using assms by (simp add: Lon_ComputeControlCommand_def Let_def)

theorem Lon_dead_band_witness:
  "(5::real) < 11 \<and> -2 \<le> vs_v (VehicleState_init 0 0 0 2 GEAR_DRIVE)
   \<and> vs_v (VehicleState_init 0 0 0 2 GEAR_DRIVE) \<le> 2
   \<and> Lon_ComputeControlCommand 7 (VehicleState_init 0 0 0 2 GEAR_DRIVE) 5 = 1.5"
  using Lon_dead_band [of 5 "VehicleState_init 0 0 0 2 GEAR_DRIVE" 7]
  by (simp add: VehicleState_init_def)

subsection \<open>Angle normalisation\<close>

text \<open>
  C3. The claim asks for a result in the half-open interval from \<open>-pi\<close> (excluded) to
  \<open>pi\<close>, unchanged when a multiple of \<open>2 * pi\<close> is added to the angle, and the
  docstring of \<^verbatim>\<open>pi_2_pi\<close> promises to regulate the angle to \<open>-pi ~ pi\<close>. The function
  removes at most one turn: the angle \<open>4 * pi\<close>, which \<^verbatim>\<open>ToTrajectoryFrame\<close> passes when
  the never-wrapped vehicle yaw is two turns ahead of the reference yaw, is sent to
  \<open>2 * pi\<close>, above \<open>pi\<close> and different from the image of 0.
\<close>

theorem pi_2_pi_two_turns:
  "pi_2_pi (4 * pi) = 2 * pi \<and> \<not> pi_2_pi (4 * pi) \<le> pi
   \<and> pi_2_pi 0 = 0 \<and> pi_2_pi (0 + 2 * pi * real_of_int 2) \<noteq> pi_2_pi 0"
  by (simp add: pi_2_pi_def)

subsection \<open>Vehicle state\<close>

lemma RegulateInput_saturation:
  "(delta > max_steer_angle c \<longrightarrow>
      RegulateInput c delta a = RegulateInput c (max_steer_angle c) a)
   \<and> (delta < - max_steer_angle c \<longrightarrow>
      RegulateInput c delta a = RegulateInput c (- max_steer_angle c) a)
   \<and> (a > max_acceleration c \<longrightarrow>
      RegulateInput c delta a = RegulateInput c delta (max_acceleration c))
   \<and> (a < - max_acceleration c \<longrightarrow>
      RegulateInput c delta a = RegulateInput c delta (- max_acceleration c))"
  by (auto simp add: RegulateInput_def Let_def)

text \<open>
  C7. A steering input above \<open>max_steer_angle\<close> (below \<open>-max_steer_angle\<close>) gives exactly
  the state that the boundary value \<open>max_steer_angle\<close> (\<open>-max_steer_angle\<close>) gives, and
  likewise for an acceleration input beyond \<open>max_acceleration\<close>, from every starting
  state; when the update raises, it raises for both inputs.
\<close>

theorem UpdateVehicleState_saturation:
  "(delta > max_steer_angle c \<longrightarrow>
      UpdateVehicleState c s delta a e_cg theta_e g
        = UpdateVehicleState c s (max_steer_angle c) a e_cg theta_e g)
   \<and> (delta < - max_steer_angle c \<longrightarrow>
      UpdateVehicleState c s delta a e_cg theta_e g
        = UpdateVehicleState c s (- max_steer_angle c) a e_cg theta_e g)
   \<and> (a > max_acceleration c \<longrightarrow>
      UpdateVehicleState c s delta a e_cg theta_e g
        = UpdateVehicleState c s delta (max_acceleration c) e_cg theta_e g)
   \<and> (a < - max_acceleration c \<longrightarrow>
      UpdateVehicleState c s delta a e_cg theta_e g
        = UpdateVehicleState c s delta (- max_acceleration c) e_cg theta_e g)"
  using RegulateInput_saturation [of c delta a] by (simp add: UpdateVehicleState_def)

theorem UpdateVehicleState_saturation_witness:
  "1 > max_steer_angle conf_example \<and> - 7 < - max_acceleration conf_example
   \<and> UpdateVehicleState conf_example (VehicleState_init 0 0 0 2.8 GEAR_DRIVE) 1 (-7) 0 0 GEAR_DRIVE
       = UpdateVehicleState conf_example (VehicleState_init 0 0 0 2.8 GEAR_DRIVE) 0.5 (-5) 0 0 GEAR_DRIVE
   \<and> UpdateVehicleState conf_example (VehicleState_init 0 0 0 2.8 GEAR_DRIVE) 1 (-7) 0 0 GEAR_DRIVE
       = Inr \<lparr>vs_x = 0.28, vs_y = 0, vs_yaw = tan 0.5 * 0.1, vs_v = 2.3, vs_e_cg = 0,
              vs_theta_e = 0, vs_gear = GEAR_DRIVE\<rparr>"
proof -
  have h: "1 > max_steer_angle conf_example" "- 7 < - max_acceleration conf_example"
    by (simp_all add: conf_example_def)
  have m: "max_steer_angle conf_example = 0.5" "- max_acceleration conf_example = - 5"
    by (simp_all add: conf_example_def)
  from UpdateVehicleState_saturation
    [of conf_example 1 "VehicleState_init 0 0 0 2.8 GEAR_DRIVE" "-7" 0 0 GEAR_DRIVE] h
  have a: "UpdateVehicleState conf_example (VehicleState_init 0 0 0 2.8 GEAR_DRIVE) 1 (-7) 0 0 GEAR_DRIVE
       = UpdateVehicleState conf_example (VehicleState_init 0 0 0 2.8 GEAR_DRIVE) 0.5 (-7) 0 0 GEAR_DRIVE"
    unfolding m by blast
  from UpdateVehicleState_saturation
    [of conf_example "0.5" "VehicleState_init 0 0 0 2.8 GEAR_DRIVE" "-7" 0 0 GEAR_DRIVE] h
  have b: "UpdateVehicleState conf_example (VehicleState_init 0 0 0 2.8 GEAR_DRIVE) 0.5 (-7) 0 0 GEAR_DRIVE
       = UpdateVehicleState conf_example (VehicleState_init 0 0 0 2.8 GEAR_DRIVE) 0.5 (-5) 0 0 GEAR_DRIVE"
    unfolding m by blast
  have c: "UpdateVehicleState conf_example (VehicleState_init 0 0 0 2.8 GEAR_DRIVE) 0.5 (-5) 0 0 GEAR_DRIVE
       = Inr \<lparr>vs_x = 0.28, vs_y = 0, vs_yaw = tan 0.5 * 0.1, vs_v = 2.3, vs_e_cg = 0,
              vs_theta_e = 0, vs_gear = GEAR_DRIVE\<rparr>"
    by (simp add: UpdateVehicleState_def RegulateInput_def RegulateOutput_def fdiv_def
          conf_example_def VehicleState_init_def Let_def)
  from h a b c show ?thesis by simp
qed

lemma RegulateOutput_bound:
  "0 \<le> max_speed c \<Longrightarrow> \<bar>RegulateOutput c v0\<bar> \<le> max_speed c / 3.6"
  by (auto simp add: RegulateOutput_def Let_def)

text \<open>
  C9. With a non-negative \<open>max_speed\<close> and a non-zero wheelbase, every call of
  \<^verbatim>\<open>UpdateVehicleState\<close> returns, and the speed of the state it returns is within
  \<open>max_speed / 3.6\<close> in absolute value, whatever the speed before the call was.
\<close>

theorem UpdateVehicleState_speed_bound:
  assumes "0 \<le> max_speed c" and "l_r c + l_f c \<noteq> 0"
  shows "\<exists>s'. UpdateVehicleState c s delta a e_cg theta_e g = Inr s'
              \<and> \<bar>vs_v s'\<bar> \<le> max_speed c / 3.6"
  using assms RegulateOutput_bound [of c]
  by (simp add: UpdateVehicleState_def fdiv_def Let_def split: prod.splits)

theorem UpdateVehicleState_speed_bound_witness:
  "0 \<le> max_speed conf_example \<and> l_r conf_example + l_f conf_example \<noteq> 0
   \<and> UpdateVehicleState conf_example (VehicleState_init 0 0 0 100 GEAR_DRIVE) 0 5 0 0 GEAR_DRIVE
       = Inr \<lparr>vs_x = 10, vs_y = 0, vs_yaw = 0, vs_v = 55 / 3.6, vs_e_cg = 0,
              vs_theta_e = 0, vs_gear = GEAR_DRIVE\<rparr>
   \<and> (\<exists>s'. UpdateVehicleState conf_example (VehicleState_init 0 0 0 100 GEAR_DRIVE) 0 5 0 0 GEAR_DRIVE
         = Inr s' \<and> \<bar>vs_v s'\<bar> \<le> max_speed conf_example / 3.6)"
proof -
  have h: "0 \<le> max_speed conf_example" "l_r conf_example + l_f conf_example \<noteq> 0"
    by (simp_all add: conf_example_def)
  have c: "UpdateVehicleState conf_example (VehicleState_init 0 0 0 100 GEAR_DRIVE) 0 5 0 0 GEAR_DRIVE
       = Inr \<lparr>vs_x = 10, vs_y = 0, vs_yaw = 0, vs_v = 55 / 3.6, vs_e_cg = 0,
              vs_theta_e = 0, vs_gear = GEAR_DRIVE\<rparr>"
    by (simp add: UpdateVehicleState_def RegulateInput_def RegulateOutput_def fdiv_def
          conf_example_def VehicleState_init_def Let_def)
  from h c UpdateVehicleState_speed_bound [OF h, of "VehicleState_init 0 0 0 100 GEAR_DRIVE" 0 5 0 0 GEAR_DRIVE]
  show ?thesis by blast
qed

subsection \<open>Feedforward term\<close>

text \<open>
  C5. In REVERSE gear the feedforward term is exactly \<open>(l_f + l_r) * k_ref\<close>, whatever
  the speed and the feedback matrix are, for a configuration whose cornering stiffnesses
  and wheelbase are not zero (the divisors of the understeer gradient, which is computed
  first in either gear).
\<close>

theorem ComputeFeedForward_reverse:
  assumes "vs_gear s = GEAR_REVERSE" and "c_f c \<noteq> 0" and "c_r c \<noteq> 0"
    and "l_f c + l_r c \<noteq> 0"
  shows "ComputeFeedForward c s k_ref matrix_k = Inr ((l_f c + l_r c) * k_ref)"
  using assms by (simp add: ComputeFeedForward_def ebind_def fdiv_def Let_def)

theorem ComputeFeedForward_reverse_witness:
  "vs_gear (VehicleState_init 0 0 0 3 GEAR_REVERSE) = GEAR_REVERSE
   \<and> c_f conf_example \<noteq> 0 \<and> c_r conf_example \<noteq> 0
   \<and> l_f conf_example + l_r conf_example \<noteq> 0
   \<and> ComputeFeedForward conf_example (VehicleState_init 0 0 0 3 GEAR_REVERSE) 0.1 [] = Inr 0.28"
  using ComputeFeedForward_reverse
    [of "VehicleState_init 0 0 0 3 GEAR_REVERSE" conf_example "0.1" "[]"]
  by (simp add: VehicleState_init_def conf_example_def)

subsection \<open>The first minimum of a list\<close>

lemma argmin_less: "ds \<noteq> [] \<Longrightarrow> argmin ds < length ds"
  by (induction ds rule: argmin.induct) (auto simp: Let_def)

lemma argmin_less_n: "length ds = n \<Longrightarrow> 0 < n \<Longrightarrow> argmin ds < n"
  using argmin_less [of ds] by auto

lemma argmin_le: "j < length ds \<Longrightarrow> ds ! argmin ds \<le> ds ! j"
proof (induction ds arbitrary: j rule: argmin.induct)
  case 1
  then show ?case by simp
next
  case (2 a)
  then show ?case by simp
next
  case (3 a b bs)
  show ?case
  proof (cases j)
    case 0
    then show ?thesis by (auto simp: Let_def)
  next
    case (Suc i)
    with 3 have "(b # bs) ! argmin (b # bs) \<le> (b # bs) ! i" by simp
    with Suc show ?thesis by (auto simp: Let_def)
  qed
qed

lemma argmin_first: "j < argmin ds \<Longrightarrow> ds ! argmin ds < ds ! j"
proof (induction ds arbitrary: j rule: argmin.induct)
  case 1
  then show ?case by simp
next
  case (2 a)
  then show ?case by simp
next
  case (3 a b bs)
  show ?case
  proof (cases "a \<le> (b # bs) ! argmin (b # bs)")
    case True
    with 3 show ?thesis by (simp add: Let_def)
  next
    case False
    show ?thesis
    proof (cases j)
      case 0
      with False show ?thesis by (simp add: Let_def)
    next
      case (Suc i)
      with 3 False have "(b # bs) ! argmin (b # bs) < (b # bs) ! i" by (simp add: Let_def)
      with Suc False show ?thesis by (simp add: Let_def)
    qed
  qed
qed

lemma first_min_index_argmin: "ds \<noteq> [] \<Longrightarrow> first_min_index ds (argmin ds)"
  by (simp add: first_min_index_def argmin_less argmin_le argmin_first)

lemma first_min_index_single: "length ds = 1 \<Longrightarrow> first_min_index ds 0"
  by (simp add: first_min_index_def)

subsection \<open>The search cursor of the trajectory analyzer\<close>

lemma ToTrajectoryFrame_arrays:
  "ta_x (snd (ToTrajectoryFrame ta s)) = ta_x ta
   \<and> ta_y (snd (ToTrajectoryFrame ta s)) = ta_y ta
   \<and> ta_yaw (snd (ToTrajectoryFrame ta s)) = ta_yaw ta
   \<and> ta_k (snd (ToTrajectoryFrame ta s)) = ta_k ta
   \<and> ind_end (snd (ToTrajectoryFrame ta s)) = ind_end ta"
  by (simp add: ToTrajectoryFrame_def Let_def split: sum.splits)

lemma ToTrajectoryFrame_cursor_mono:
  "ind_old ta \<le> ind_old (snd (ToTrajectoryFrame ta s))"
  by (simp add: ToTrajectoryFrame_def Let_def split: sum.splits)

lemma cursor_trace_sorted: "sorted (ind_old ta # cursor_trace ta ss)"
proof (induction ss arbitrary: ta)
  case Nil
  then show ?case by simp
next
  case (Cons s ss)
  let ?ta' = "snd (ToTrajectoryFrame ta s)"
  have a: "ind_old ta \<le> ind_old ?ta'" by (rule ToTrajectoryFrame_cursor_mono)
  have b: "sorted (ind_old ?ta' # cursor_trace ?ta' ss)" by (rule Cons.IH)
  from a b show ?case by (auto simp: Let_def)
qed

lemma map2_hypot_dists:
  "map2 hypot (map (\<lambda>ix. a - ix) xs) (map (\<lambda>iy. b - iy) ys)
     = map2 (\<lambda>ix iy. hypot (a - ix) (b - iy)) xs ys"
  by (induction xs arbitrary: ys) (auto simp: zip_Cons1 split: list.splits)

lemma length_suffix_dists:
  "length (suffix_dists ta s)
     = min (length (slice (ta_x ta) (ind_old ta) (ind_end ta)))
           (length (slice (ta_y ta) (ind_old ta) (ind_end ta)))"
  by (simp add: suffix_dists_def)

lemma ToTrajectoryFrame_advance:
  assumes "fst (ToTrajectoryFrame ta s) = Inr r"
  shows "\<exists>i. ind_old (snd (ToTrajectoryFrame ta s)) = ind_old ta + i
             \<and> first_min_index (suffix_dists ta s) i"
proof -
  let ?xs = "slice (ta_x ta) (ind_old ta) (ind_end ta)"
  let ?ys = "slice (ta_y ta) (ind_old ta) (ind_end ta)"
  let ?dx = "map (\<lambda>ix. vs_x s - ix) ?xs"
  let ?dy = "map (\<lambda>iy. vs_y s - iy) ?ys"
  from assms obtain ds where ds: "np_hypot ?dx ?dy = Inr ds"
    by (auto simp add: ToTrajectoryFrame_def Let_def split: sum.splits)
  from assms ds have ne: "ds \<noteq> []"
    by (auto simp add: ToTrajectoryFrame_def Let_def np_argmin_def split: sum.splits if_splits)
  from assms ds ne have adv: "ind_old (snd (ToTrajectoryFrame ta s)) = ind_old ta + argmin ds"
    and inx: "argmin ds < length ?dx" and iny: "argmin ds < length ?dy"
    by (auto simp add: ToTrajectoryFrame_def Let_def np_argmin_def getitem_def
          split: sum.splits if_splits)
  show ?thesis
  proof (cases "length ?xs = length ?ys")
    case True
    with ds have "ds = suffix_dists ta s"
      by (auto simp add: np_hypot_def suffix_dists_def map2_hypot_dists)
    with ne adv show ?thesis using first_min_index_argmin by blast
  next
    case False
    with ds have one: "length ?xs = 1 \<or> length ?ys = 1"
      by (auto simp add: np_hypot_def split: if_splits)
    from inx iny have pos: "0 < length ?xs" "0 < length ?ys" by auto
    from one inx iny have "argmin ds = 0" by auto
    moreover from one pos have "length (suffix_dists ta s) = 1"
      unfolding length_suffix_dists by linarith
    ultimately show ?thesis using adv first_min_index_single by force
  qed
qed

lemma ToTrajectoryFrame_example1:
  "ToTrajectoryFrame ta_example (VehicleState_init 1 1 0 1 GEAR_DRIVE)
     = (Inr (0, 1, 0, 0.2), ta_example\<lparr>ind_old := Suc 0\<rparr>)"
  by (simp add: ToTrajectoryFrame_def ta_example_def TrajectoryAnalyzer_init_def
        VehicleState_init_def slice_def np_hypot_def np_argmin_def getitem_def hypot_def
        pi_2_pi_def Let_def)

lemma ToTrajectoryFrame_example2:
  "ToTrajectoryFrame (ta_example\<lparr>ind_old := Suc 0\<rparr>) (VehicleState_init 2 0 0 1 GEAR_DRIVE)
     = (Inr (0, 0, 0, 0.3), ta_example\<lparr>ind_old := 2\<rparr>)"
  by (simp add: ToTrajectoryFrame_def ta_example_def TrajectoryAnalyzer_init_def
        VehicleState_init_def slice_def np_hypot_def np_argmin_def getitem_def hypot_def
        pi_2_pi_def Let_def)

text \<open>
  C4. Over any sequence of \<^verbatim>\<open>ToTrajectoryFrame\<close> calls on one analyzer the cursor
  \<^verbatim>\<open>ind_old\<close> never decreases, whether a call returns or raises; a call that returns has
  advanced the cursor by an offset into the search suffix at which the distance to the
  vehicle is minimal and before which every distance is strictly larger (the first
  minimum). No other operation of the analyzer writes the cursor.
\<close>

theorem cursor_never_decreases:
  "sorted (ind_old ta # cursor_trace ta ss)
   \<and> (\<forall>s r. fst (ToTrajectoryFrame ta s) = Inr r \<longrightarrow>
         (\<exists>i. ind_old (snd (ToTrajectoryFrame ta s)) = ind_old ta + i
              \<and> first_min_index (suffix_dists ta s) i))"
  using cursor_trace_sorted ToTrajectoryFrame_advance by blast

theorem cursor_never_decreases_witness:
  "cursor_trace ta_example [VehicleState_init 1 1 0 1 GEAR_DRIVE, VehicleState_init 2 0 0 1 GEAR_DRIVE]
     = [1, 2]
   \<and> sorted (ind_old ta_example # [1, 2])
   \<and> fst (ToTrajectoryFrame ta_example (VehicleState_init 1 1 0 1 GEAR_DRIVE)) = Inr (0, 1, 0, 0.2)
   \<and> (\<exists>i. ind_old (snd (ToTrajectoryFrame ta_example (VehicleState_init 1 1 0 1 GEAR_DRIVE)))
            = ind_old ta_example + i
          \<and> first_min_index (suffix_dists ta_example (VehicleState_init 1 1 0 1 GEAR_DRIVE)) i)"
proof -
  have tr: "cursor_trace ta_example
      [VehicleState_init 1 1 0 1 GEAR_DRIVE, VehicleState_init 2 0 0 1 GEAR_DRIVE] = [1, 2]"
    by (simp add: ToTrajectoryFrame_example1 ToTrajectoryFrame_example2 Let_def)
  have r: "fst (ToTrajectoryFrame ta_example (VehicleState_init 1 1 0 1 GEAR_DRIVE))
      = Inr (0, 1, 0, 0.2)"
    by (simp add: ToTrajectoryFrame_example1)
  note inst = cursor_never_decreases [of ta_example
      "[VehicleState_init 1 1 0 1 GEAR_DRIVE, VehicleState_init 2 0 0 1 GEAR_DRIVE]"]
  from inst have s: "sorted (ind_old ta_example # [1, 2])" unfolding tr by (rule conjunct1)
  from inst r have a: "\<exists>i. ind_old (snd (ToTrajectoryFrame ta_example
        (VehicleState_init 1 1 0 1 GEAR_DRIVE))) = ind_old ta_example + i
      \<and> first_min_index (suffix_dists ta_example (VehicleState_init 1 1 0 1 GEAR_DRIVE)) i"
    by blast
  from tr s r a show ?thesis by blast
qed

lemma ToTrajectoryFrame_in_bounds:
  assumes "ind_old ta < length (ta_x ta)" and "ind_end ta = length (ta_x ta)"
    and "length (ta_y ta) = length (ta_x ta)" and "length (ta_yaw ta) = length (ta_x ta)"
    and "length (ta_k ta) = length (ta_x ta)"
  shows "\<not> isl (fst (ToTrajectoryFrame ta s))
         \<and> ind_old (snd (ToTrajectoryFrame ta s)) < length (ta_x ta)"
proof -
  define n where "n = length (ta_x ta) - ind_old ta"
  define dx where "dx = map (\<lambda>ix. vs_x s - ix) (slice (ta_x ta) (ind_old ta) (ind_end ta))"
  define dy where "dy = map (\<lambda>iy. vs_y s - iy) (slice (ta_y ta) (ind_old ta) (ind_end ta))"
  define ds where "ds = map2 hypot dx dy"
  from assms have n: "0 < n" and lx: "length dx = n" and ly: "length dy = n"
    by (simp_all add: n_def dx_def dy_def slice_def)
  then have lds: "length ds = n" by (simp add: ds_def)
  from lx ly have h: "np_hypot dx dy = Inr ds" by (simp add: np_hypot_def ds_def)
  from lds n have am: "np_argmin ds = Inr (argmin ds)" by (auto simp add: np_argmin_def)
  from lds n have lt: "argmin ds < n" by (rule argmin_less_n)
  with lx ly have gx: "getitem dx (argmin ds) = Inr (dx ! argmin ds)"
    and gy: "getitem dy (argmin ds) = Inr (dy ! argmin ds)"
    by (simp_all add: getitem_def)
  from lt have b: "ind_old ta + argmin ds < length (ta_x ta)" by (simp add: n_def)
  have "ToTrajectoryFrame ta s =
     (case np_hypot dx dy of
           Inl e \<Rightarrow> (Inl e, ta)
         | Inr ds \<Rightarrow>
         (case np_argmin ds of
           Inl e \<Rightarrow> (Inl e, ta)
         | Inr ind_add \<Rightarrow>
         (case getitem dx ind_add of
           Inl e \<Rightarrow> (Inl e, ta)
         | Inr dxi \<Rightarrow>
         (case getitem dy ind_add of
           Inl e \<Rightarrow> (Inl e, ta)
         | Inr dyi \<Rightarrow>
             let d = hypot dxi dyi;
                 e_cg = (if cos (vs_yaw s + pi / 2.0) * dxi + sin (vs_yaw s + pi / 2.0) * dyi > 0.0
                         then 1.0 * d else -1.0 * d);
                 ta' = ta\<lparr>ind_old := ind_old ta + ind_add\<rparr>
             in (case getitem (ta_yaw ta') (ind_old ta') of
                   Inl e \<Rightarrow> (Inl e, ta')
                 | Inr yaw_ref \<Rightarrow>
                     let theta_e = pi_2_pi (vs_yaw s - yaw_ref)
                     in (case getitem (ta_k ta') (ind_old ta') of
                           Inl e \<Rightarrow> (Inl e, ta')
                         | Inr k_ref \<Rightarrow> (Inr (theta_e, e_cg, yaw_ref, k_ref), ta')))))))"
    unfolding ToTrajectoryFrame_def Let_def dx_def dy_def ..
  then show ?thesis
    using b assms lt lx ly by (simp add: h am getitem_def Let_def)
qed

lemma ToTrajectoryFrame_calls_in_bounds:
  assumes "ind_old ta < length (ta_x ta)" and "ind_end ta = length (ta_x ta)"
    and "length (ta_y ta) = length (ta_x ta)" and "length (ta_yaw ta) = length (ta_x ta)"
    and "length (ta_k ta) = length (ta_x ta)"
  shows "list_all (\<lambda>r. \<not> isl r) (fst (ToTrajectoryFrame_calls ta ss))
         \<and> list_all (\<lambda>i. i < length (ta_x ta)) (cursor_trace ta ss)
         \<and> ind_old (snd (ToTrajectoryFrame_calls ta ss)) < length (ta_x ta)
         \<and> ta_x (snd (ToTrajectoryFrame_calls ta ss)) = ta_x ta
         \<and> ind_end (snd (ToTrajectoryFrame_calls ta ss)) = ind_end ta"
  using assms
proof (induction ss arbitrary: ta)
  case Nil
  then show ?case by simp
next
  case (Cons s ss)
  let ?ta' = "snd (ToTrajectoryFrame ta s)"
  note step = ToTrajectoryFrame_in_bounds [OF Cons.prems, of s]
  note arr = ToTrajectoryFrame_arrays [of ta s]
  have "list_all (\<lambda>r. \<not> isl r) (fst (ToTrajectoryFrame_calls ?ta' ss))
         \<and> list_all (\<lambda>i. i < length (ta_x ?ta')) (cursor_trace ?ta' ss)
         \<and> ind_old (snd (ToTrajectoryFrame_calls ?ta' ss)) < length (ta_x ?ta')
         \<and> ta_x (snd (ToTrajectoryFrame_calls ?ta' ss)) = ta_x ?ta'
         \<and> ind_end (snd (ToTrajectoryFrame_calls ?ta' ss)) = ind_end ?ta'"
    using step arr Cons.prems by (intro Cons.IH) simp_all
  with step arr show ?case
    by (simp add: Let_def split_beta)
qed

text \<open>
  C8. For an analyzer built from non-empty arrays of one length, every call of any
  sequence of \<^verbatim>\<open>ToTrajectoryFrame\<close> calls returns (no exception: the suffix scanned is
  not empty and the reads of \<^verbatim>\<open>yaw_\<close> and \<^verbatim>\<open>k_\<close> are in range), and the cursor is at
  most \<open>len - 1\<close> after each call, so that the next search suffix is not empty either.
\<close>

theorem cursor_in_bounds:
  assumes "xs \<noteq> []" and "length ys = length xs" and "length yaws = length xs"
    and "length ks = length xs"
  shows "list_all (\<lambda>r. \<not> isl r) (fst (ToTrajectoryFrame_calls (TrajectoryAnalyzer_init xs ys yaws ks) ss))
       \<and> list_all (\<lambda>i. i \<le> length xs - 1) (cursor_trace (TrajectoryAnalyzer_init xs ys yaws ks) ss)
       \<and> (let ta' = snd (ToTrajectoryFrame_calls (TrajectoryAnalyzer_init xs ys yaws ks) ss)
          in ind_old ta' \<le> length xs - 1 \<and> slice (ta_x ta') (ind_old ta') (ind_end ta') \<noteq> [])"
proof -
  let ?ta = "TrajectoryAnalyzer_init xs ys yaws ks"
  have "list_all (\<lambda>r. \<not> isl r) (fst (ToTrajectoryFrame_calls ?ta ss))
         \<and> list_all (\<lambda>i. i < length (ta_x ?ta)) (cursor_trace ?ta ss)
         \<and> ind_old (snd (ToTrajectoryFrame_calls ?ta ss)) < length (ta_x ?ta)
         \<and> ta_x (snd (ToTrajectoryFrame_calls ?ta ss)) = ta_x ?ta
         \<and> ind_end (snd (ToTrajectoryFrame_calls ?ta ss)) = ind_end ?ta"
    using assms by (intro ToTrajectoryFrame_calls_in_bounds) (simp_all add: TrajectoryAnalyzer_init_def)
  then show ?thesis
    by (auto simp add: TrajectoryAnalyzer_init_def Let_def slice_def list_all_iff)
qed

theorem cursor_in_bounds_witness:
  "[0, 1, 2] \<noteq> ([]::real list) \<and> length [0, 0, 0::real] = length [0, 1, 2::real]
   \<and> length [0.1, 0.2, 0.3::real] = length [0, 1, 2::real]
   \<and> fst (ToTrajectoryFrame_calls ta_example
        [VehicleState_init 1 1 0 1 GEAR_DRIVE, VehicleState_init 2 0 0 1 GEAR_DRIVE])
       = [Inr (0, 1, 0, 0.2), Inr (0, 0, 0, 0.3)]
   \<and> ind_old (snd (ToTrajectoryFrame_calls ta_example
        [VehicleState_init 1 1 0 1 GEAR_DRIVE, VehicleState_init 2 0 0 1 GEAR_DRIVE])) = 2
   \<and> list_all (\<lambda>i. i \<le> length [0, 1, 2::real] - 1) (cursor_trace ta_example
        [VehicleState_init 1 1 0 1 GEAR_DRIVE, VehicleState_init 2 0 0 1 GEAR_DRIVE])"
proof -
  have c: "ToTrajectoryFrame_calls ta_example
        [VehicleState_init 1 1 0 1 GEAR_DRIVE, VehicleState_init 2 0 0 1 GEAR_DRIVE]
      = ([Inr (0, 1, 0, 0.2), Inr (0, 0, 0, 0.3)], ta_example\<lparr>ind_old := 2\<rparr>)"
    by (simp add: ToTrajectoryFrame_example1 ToTrajectoryFrame_example2 Let_def)
  have h: "[0, 1, 2] \<noteq> ([]::real list)" "length [0, 0, 0::real] = length [0, 1, 2::real]"
    "length [0.1, 0.2, 0.3::real] = length [0, 1, 2::real]"
    by simp_all
  note inst = cursor_in_bounds [OF h(1) h(2) h(2) h(3),
      of "[VehicleState_init 1 1 0 1 GEAR_DRIVE, VehicleState_init 2 0 0 1 GEAR_DRIVE]",
      folded ta_example_def]
  from inst have t: "list_all (\<lambda>i. i \<le> length [0, 1, 2::real] - 1) (cursor_trace ta_example
        [VehicleState_init 1 1 0 1 GEAR_DRIVE, VehicleState_init 2 0 0 1 GEAR_DRIVE])"
    by blast
  from h t show ?thesis unfolding c by simp
qed

subsection \<open>Shapes of the matrix operations\<close>

lemma is_mat_nrows: "is_mat n m A \<Longrightarrow> nrows A = n"
  by (simp add: is_mat_def nrows_def)

lemma is_mat_ncols: "is_mat n m A \<Longrightarrow> 0 < n \<Longrightarrow> ncols A = m"
  by (cases A) (auto simp add: is_mat_def ncols_def)

lemma is_mat_T:
  assumes "is_mat n m A" and "0 < n"
  shows "is_mat m n (mat_T A)"
proof -
  from assms have "ncols A = m" by (rule is_mat_ncols)
  with assms show ?thesis by (simp add: is_mat_def mat_T_def col_def)
qed

lemma is_mat_matmul:
  assumes "is_mat n k A" and "is_mat k m B" and "0 < k"
  shows "is_mat n m (matmul A B)"
proof -
  from assms have "ncols B = m" by (simp add: is_mat_ncols)
  with assms show ?thesis by (simp add: is_mat_def matmul_def)
qed

lemma is_mat_map2:
  assumes "is_mat n m A" and "is_mat n m B"
  shows "is_mat n m (map2 (map2 f) A B)"
proof -
  have "length (map2 f a b) = m" if "(a, b) \<in> set (zip A B)" for a b
  proof -
    from that have "a \<in> set A" and "b \<in> set B"
      by (auto dest: set_zip_leftD set_zip_rightD)
    with assms show ?thesis by (simp add: is_mat_def)
  qed
  with assms show ?thesis by (auto simp add: is_mat_def)
qed

lemma is_mat_add: "is_mat n m A \<Longrightarrow> is_mat n m B \<Longrightarrow> is_mat n m (mat_add A B)"
  unfolding mat_add_def by (rule is_mat_map2)

lemma is_mat_sub: "is_mat n m A \<Longrightarrow> is_mat n m B \<Longrightarrow> is_mat n m (mat_sub A B)"
  unfolding mat_sub_def by (rule is_mat_map2)

lemma map2_add_zeros: "length r = m \<Longrightarrow> map2 (+) r (replicate m (0::real)) = r"
  by (induction r arbitrary: m) auto

lemma mat_add_zeros: "is_mat n m X \<Longrightarrow> mat_add X (zeros n m) = X"
proof (induction X arbitrary: n)
  case Nil
  then show ?case by (simp add: mat_add_def zeros_def)
next
  case (Cons r X)
  then obtain n' where n: "n = Suc n'" and r: "length r = m" and X: "is_mat n' m X"
    by (auto simp add: is_mat_def)
  from Cons.IH [OF X] r show ?case
    by (simp add: n mat_add_def zeros_def map2_add_zeros)
qed

lemma mat_T_zeros: "0 < n \<Longrightarrow> mat_T (zeros n m) = zeros m n"
  by (cases n) (auto simp add: mat_T_def zeros_def ncols_def col_def intro!: nth_equalityI)

lemma max_abs_is_mat: "is_mat n n X \<Longrightarrow> 0 < n \<Longrightarrow> max_abs X = Inr (abs_max X)"
  by (cases X) (auto simp add: max_abs_def is_mat_def)

lemma fold_max_abs: "fold (\<lambda>a b. max b \<bar>a\<bar>) es x = Max (insert x (abs ` set es))"
proof (induction es arbitrary: x)
  case Nil
  then show ?case by simp
next
  case (Cons e es)
  have "Max (insert (max x \<bar>e\<bar>) (abs ` set es)) = Max (insert x (insert \<bar>e\<bar> (abs ` set es)))"
    by (cases "es = []") (simp_all add: max.assoc)
  with Cons show ?case by simp
qed

lemma abs_max_Max: "concat A \<noteq> [] \<Longrightarrow> abs_max A = Max (abs ` set (concat A))"
  by (cases "concat A") (simp_all add: abs_max_def fold_max_abs del: set_concat)

lemma pinv_1x1_keeps_shape: "keeps_shape 1 pinv_1x1"
  by (auto simp add: keeps_shape_def is_mat_def pinv_1x1_def split: list.splits)

subsection \<open>The solver and the Riccati iteration\<close>

lemma spec_update_is_mat:
  assumes A: "is_mat n n A" and B: "is_mat n m B" and Q: "is_mat n n Q" and R: "is_mat m m R"
    and P: "is_mat n n P" and n: "0 < n" and m: "0 < m"
    and pinv: "keeps_shape m pinv"
  shows "is_mat n n (spec_update pinv A B Q R P)"
proof -
  have AT: "is_mat n n (mat_T A)" using A n by (rule is_mat_T)
  have BT: "is_mat m n (mat_T B)" using B n by (rule is_mat_T)
  have ATP: "is_mat n n (matmul (mat_T A) P)" using AT P n by (rule is_mat_matmul)
  have BTP: "is_mat m n (matmul (mat_T B) P)" using BT P n by (rule is_mat_matmul)
  have ATPA: "is_mat n n (matmul (matmul (mat_T A) P) A)" using ATP A n by (rule is_mat_matmul)
  have ATPB: "is_mat n m (matmul (matmul (mat_T A) P) B)" using ATP B n by (rule is_mat_matmul)
  have BTPA: "is_mat m n (matmul (matmul (mat_T B) P) A)" using BTP A n by (rule is_mat_matmul)
  have BTPB: "is_mat m m (matmul (matmul (mat_T B) P) B)" using BTP B n by (rule is_mat_matmul)
  have "is_mat m m (pinv (mat_add R (matmul (matmul (mat_T B) P) B)))"
    using R BTPB pinv by (simp add: keeps_shape_def is_mat_add)
  with ATPB have "is_mat n m (matmul (matmul (matmul (mat_T A) P) B)
      (pinv (mat_add R (matmul (matmul (mat_T B) P) B))))"
    using m by (rule is_mat_matmul)
  then have "is_mat n n (matmul (matmul (matmul (matmul (mat_T A) P) B)
      (pinv (mat_add R (matmul (matmul (mat_T B) P) B)))) (matmul (matmul (mat_T B) P) A))"
    using BTPA m by (rule is_mat_matmul)
  with ATPA Q show ?thesis
    unfolding spec_update_def by (intro is_mat_add is_mat_sub)
qed

lemma riccati_step_spec:
  assumes A: "is_mat n n A" and B: "is_mat n m B" and P: "is_mat n n P" and n: "0 < n"
  shows "riccati_step pinv A B Q R (zeros n m) P = spec_update pinv A B Q R P"
proof -
  have AT: "is_mat n n (mat_T A)" using A n by (rule is_mat_T)
  have BT: "is_mat m n (mat_T B)" using B n by (rule is_mat_T)
  have ATP: "is_mat n n (matmul (mat_T A) P)" using AT P n by (rule is_mat_matmul)
  have BTP: "is_mat m n (matmul (mat_T B) P)" using BT P n by (rule is_mat_matmul)
  have ATPB: "is_mat n m (matmul (matmul (mat_T A) P) B)" using ATP B n by (rule is_mat_matmul)
  have BTPA: "is_mat m n (matmul (matmul (mat_T B) P) A)" using BTP A n by (rule is_mat_matmul)
  show ?thesis
    by (simp add: riccati_step_def spec_update_def Let_def mat_T_zeros [OF n]
          mat_add_zeros [OF ATPB] mat_add_zeros [OF BTPA])
qed

lemma spec_P_is_mat:
  assumes "is_mat n n A" and "is_mat n m B" and "is_mat n n Q" and "is_mat m m R"
    and "0 < n" and "0 < m" and "keeps_shape m pinv"
  shows "is_mat n n (spec_P pinv A B Q R k)"
proof (induction k)
  case 0
  from assms show ?case by simp
next
  case (Suc k)
  from assms(1-4) Suc assms(5-7) show ?case
    unfolding spec_P.simps by (rule spec_update_is_mat)
qed

lemma riccati_loop_spec:
  assumes A: "is_mat n n A" and B: "is_mat n m B" and Q: "is_mat n n Q" and R: "is_mat m m R"
    and n: "0 < n" and m: "0 < m"
    and pinv: "keeps_shape m pinv"
  shows "int k \<le> max 0 max_num_iteration
    \<Longrightarrow> \<forall>j. 1 \<le> j \<and> j < k \<longrightarrow> tolerance < spec_change pinv A B Q R j
    \<Longrightarrow> \<exists>N d. riccati_loop pinv A B Q R (zeros n m) tolerance max_num_iteration
               (spec_P pinv A B Q R k) k
               (if k = 0 then None else Some (spec_change pinv A B Q R k))
             = Inr (spec_P pinv A B Q R N, N, d)
           \<and> stops_at (spec_change pinv A B Q R) tolerance max_num_iteration N"
proof (induction "nat (max_num_iteration - int k)" arbitrary: k)
  case 0
  then have "\<not> int k < max_num_iteration" by simp
  with 0 have "stops_at (spec_change pinv A B Q R) tolerance max_num_iteration k"
    by (simp add: stops_at_def)
  with \<open>\<not> int k < max_num_iteration\<close> show ?case
    by (simp add: riccati_loop.simps [of _ _ _ _ _ _ _ _ "spec_P pinv A B Q R k"])
next
  case (Suc x)
  let ?d = "if k = 0 then None else Some (spec_change pinv A B Q R k)"
  from Suc have lt: "int k < max_num_iteration" by linarith
  show ?case
  proof (cases "exceeds ?d tolerance")
    case False
    then have "1 \<le> k \<and> spec_change pinv A B Q R k \<le> tolerance"
      by (auto simp add: exceeds_def split: if_splits)
    with Suc.prems have "stops_at (spec_change pinv A B Q R) tolerance max_num_iteration k"
      by (simp add: stops_at_def)
    with False show ?thesis
      by (simp add: riccati_loop.simps [of _ _ _ _ _ _ _ _ "spec_P pinv A B Q R k"])
  next
    case True
    have Pk: "is_mat n n (spec_P pinv A B Q R k)"
      using A B Q R n m pinv by (rule spec_P_is_mat)
    have PSk: "is_mat n n (spec_P pinv A B Q R (Suc k))"
      using A B Q R n m pinv by (rule spec_P_is_mat)
    have step: "riccati_step pinv A B Q R (zeros n m) (spec_P pinv A B Q R k)
        = spec_P pinv A B Q R (Suc k)"
      using riccati_step_spec [OF A B Pk n] by simp
    have "is_mat n n (mat_sub (spec_P pinv A B Q R (Suc k)) (spec_P pinv A B Q R k))"
      using PSk Pk by (rule is_mat_sub)
    then have ch: "max_abs (mat_sub (spec_P pinv A B Q R (Suc k)) (spec_P pinv A B Q R k))
        = Inr (spec_change pinv A B Q R (Suc k))"
      using n by (simp add: max_abs_is_mat spec_change_def)
    have unfold: "riccati_loop pinv A B Q R (zeros n m) tolerance max_num_iteration
               (spec_P pinv A B Q R k) k ?d
        = riccati_loop pinv A B Q R (zeros n m) tolerance max_num_iteration
               (spec_P pinv A B Q R (Suc k)) (Suc k) (Some (spec_change pinv A B Q R (Suc k)))"
      using lt True
      by (simp add: riccati_loop.simps [of _ _ _ _ _ _ _ _ "spec_P pinv A B Q R k"] step ch
            del: spec_P.simps)
    have m1: "x = nat (max_num_iteration - int (Suc k))" using Suc(2) by simp
    have m2: "int (Suc k) \<le> max 0 max_num_iteration" using lt by simp
    have m3: "\<forall>j. 1 \<le> j \<and> j < Suc k \<longrightarrow> tolerance < spec_change pinv A B Q R j"
    proof (intro allI impI)
      fix j assume j: "1 \<le> j \<and> j < Suc k"
      show "tolerance < spec_change pinv A B Q R j"
      proof (cases "j = k")
        case True
        with j \<open>exceeds ?d tolerance\<close> show ?thesis by (simp add: exceeds_def)
      next
        case False
        with j Suc.prems(2) show ?thesis by simp
      qed
    qed
    from Suc(1) [OF m1 m2 m3] unfold show ?thesis by simp
  qed
qed

lemma stops_at_unique:
  assumes "stops_at change tolerance max_num_iteration N"
    and "stops_at change tolerance max_num_iteration N'"
  shows "N = N'"
proof (rule ccontr)
  assume ne: "N \<noteq> N'"
  have less: False
    if a: "stops_at change tolerance max_num_iteration i"
      and b: "stops_at change tolerance max_num_iteration j" and ij: "i < j" for i j
  proof -
    from b have "int j \<le> max 0 max_num_iteration" by (simp add: stops_at_def)
    with ij have cap: "int i < max_num_iteration" by linarith
    with a have "1 \<le> i \<and> change i \<le> tolerance" by (simp add: stops_at_def)
    moreover from this b ij have "tolerance < change i" by (simp add: stops_at_def)
    ultimately show False by simp
  qed
  from ne have "N < N' \<or> N' < N" by auto
  with less assms show False by blast
qed

lemma spec_P_example:
  "spec_P pinv_1x1 [[1, 1], [0, 1]] [[0], [1]] [[1, 0], [0, 1]] [[1]] 1 = [[2, 1], [1, 5 / 2]]"
  "spec_P pinv_1x1 [[1, 1], [0, 1]] [[0], [1]] [[1, 0], [0, 1]] [[1]] 2 = [[19 / 7, 2], [2, 4]]"
  by (simp_all add: eval_nat_numeral spec_update_def mat_defs upt_rec)

text \<open>
  C1 as stated fails at the tolerance itself: the loop runs while the change exceeds the
  tolerance, so it stops when the change equals it. With all four matrices \<open>[[1]]\<close> and
  tolerance \<open>1 / 2\<close> the first change is exactly \<open>1 / 2\<close>, not below the tolerance, and the
  cap of 150 is not reached; the solver returns the gain \<open>3 / 5\<close> of the first iterate,
  not the gain \<open>8 / 13\<close> of the second iterate, the first whose change is below \<open>1 / 2\<close>.
\<close>

theorem SolveLQRProblem_tolerance_counterexample:
  "SolveLQRProblem pinv_1x1 inv_1x1 [[1]] [[1]] [[1]] [[1]] (1 / 2) 150 = Inr [[3 / 5]]
   \<and> spec_P pinv_1x1 [[1]] [[1]] [[1]] [[1]] 1 = [[3 / 2]]
   \<and> spec_change pinv_1x1 [[1]] [[1]] [[1]] [[1]] 1 = 1 / 2
   \<and> \<not> spec_change pinv_1x1 [[1]] [[1]] [[1]] [[1]] 1 < 1 / 2
   \<and> spec_P pinv_1x1 [[1]] [[1]] [[1]] [[1]] 2 = [[8 / 5]]
   \<and> spec_change pinv_1x1 [[1]] [[1]] [[1]] [[1]] 2 < 1 / 2
   \<and> matmul [[1 / (8 / 5 + 1)]]
        (matmul (matmul (mat_T [[1]]) (spec_P pinv_1x1 [[1]] [[1]] [[1]] [[1]] 2)) [[1]])
      = [[8 / 13]]"
  by (simp add: SolveLQRProblem_def riccati_loop.simps spec_change_def eval_nat_numeral
        spec_update_def mat_defs ebind_def Let_def)

text \<open>
  C1, amended. On matrices of matching dimensions the solver runs the Riccati iteration
  from \<open>P\<^sub>0 = Q\<close> with the update above (the inverse in it a pseudo-inverse), until the
  largest absolute elementwise change between successive iterates is at most the
  tolerance or the iteration cap is reached, and, when the inverse of \<open>B\<^sup>T P B + R\<close> is
  returned, it returns that inverse times \<open>B\<^sup>T P A\<close> for the last iterate \<open>P\<close>.
\<close>

theorem SolveLQRProblem_riccati:
  assumes A: "is_mat n n A" and B: "is_mat n m B" and Q: "is_mat n n Q" and R: "is_mat m m R"
    and n: "0 < n" and m: "0 < m"
    and pinv: "keeps_shape m pinv"
  shows "\<exists>N. stops_at (spec_change pinv A B Q R) tolerance max_num_iteration N
    \<and> (\<forall>Xi. linalg_inv (mat_add (matmul (matmul (mat_T B) (spec_P pinv A B Q R N)) B) R) = Inr Xi
          \<longrightarrow> SolveLQRProblem pinv linalg_inv A B Q R tolerance max_num_iteration
              = Inr (matmul Xi (matmul (matmul (mat_T B) (spec_P pinv A B Q R N)) A)))"
proof -
  have dims: "nrows A = n" "ncols A = n" "nrows B = n" "ncols B = m" "nrows Q = n" "ncols Q = n"
    "nrows R = m" "ncols R = m"
    using A B Q R n m by (simp_all add: is_mat_nrows is_mat_ncols)
  have "\<exists>N d. riccati_loop pinv A B Q R (zeros n m) tolerance max_num_iteration Q 0 None
        = Inr (spec_P pinv A B Q R N, N, d)
      \<and> stops_at (spec_change pinv A B Q R) tolerance max_num_iteration N"
    using riccati_loop_spec [OF A B Q R n m pinv, where k = 0
      and max_num_iteration = max_num_iteration and tolerance = tolerance]
    by simp
  then obtain N d where loop: "riccati_loop pinv A B Q R (zeros n m) tolerance max_num_iteration Q 0 None
        = Inr (spec_P pinv A B Q R N, N, d)"
    and stop: "stops_at (spec_change pinv A B Q R) tolerance max_num_iteration N"
    by auto
  have PN: "is_mat n n (spec_P pinv A B Q R N)"
    using A B Q R n m pinv by (rule spec_P_is_mat)
  have BT: "is_mat m n (mat_T B)" using B n by (rule is_mat_T)
  have BTP: "is_mat m n (matmul (mat_T B) (spec_P pinv A B Q R N))"
    using BT PN n by (rule is_mat_matmul)
  have BTPA: "is_mat m n (matmul (matmul (mat_T B) (spec_P pinv A B Q R N)) A)"
    using BTP A n by (rule is_mat_matmul)
  have "SolveLQRProblem pinv linalg_inv A B Q R tolerance max_num_iteration
      = Inr (matmul Xi (matmul (matmul (mat_T B) (spec_P pinv A B Q R N)) A))"
    if "linalg_inv (mat_add (matmul (matmul (mat_T B) (spec_P pinv A B Q R N)) B) R) = Inr Xi"
    for Xi
    using that
    by (simp add: SolveLQRProblem_def dims loop ebind_def Let_def mat_T_zeros [OF n]
          mat_add_zeros [OF BTPA])
  with stop show ?thesis by blast
qed

theorem SolveLQRProblem_riccati_witness:
  "is_mat 2 2 [[1, 1], [0, 1]] \<and> is_mat 2 1 [[0], [1]] \<and> is_mat 2 2 [[1, 0], [0, 1]]
   \<and> is_mat 1 1 [[1]] \<and> (0::nat) < 2 \<and> (0::nat) < 1 \<and> keeps_shape 1 pinv_1x1
   \<and> (\<exists>N. stops_at (spec_change pinv_1x1 [[1, 1], [0, 1]] [[0], [1]] [[1, 0], [0, 1]] [[1]])
              (1 / 100) 2 N
         \<and> (\<forall>Xi. inv_1x1 (mat_add (matmul (matmul (mat_T [[0], [1]])
                      (spec_P pinv_1x1 [[1, 1], [0, 1]] [[0], [1]] [[1, 0], [0, 1]] [[1]] N))
                      [[0], [1]]) [[1]]) = Inr Xi
               \<longrightarrow> SolveLQRProblem pinv_1x1 inv_1x1 [[1, 1], [0, 1]] [[0], [1]] [[1, 0], [0, 1]]
                     [[1]] (1 / 100) 2
                   = Inr (matmul Xi (matmul (matmul (mat_T [[0], [1]])
                      (spec_P pinv_1x1 [[1, 1], [0, 1]] [[0], [1]] [[1, 0], [0, 1]] [[1]] N))
                      [[1, 1], [0, 1]]))))
   \<and> SolveLQRProblem pinv_1x1 inv_1x1 [[1, 1], [0, 1]] [[0], [1]] [[1, 0], [0, 1]] [[1]]
        (1 / 100) 2 = Inr [[2 / 5, 6 / 5]]"
proof -
  have h: "is_mat 2 2 [[1, 1], [0, 1]]" "is_mat 2 1 [[0], [1]]" "is_mat 2 2 [[1, 0], [0, 1]]"
    "is_mat 1 1 [[1]]" "(0::nat) < 2" "(0::nat) < 1"
    by (simp_all add: is_mat_def)
  note inst = SolveLQRProblem_riccati [OF h pinv_1x1_keeps_shape, where
      linalg_inv = inv_1x1 and tolerance = "1 / 100" and max_num_iteration = 2]
  have v: "SolveLQRProblem pinv_1x1 inv_1x1 [[1, 1], [0, 1]] [[0], [1]] [[1, 0], [0, 1]] [[1]]
        (1 / 100) 2 = Inr [[2 / 5, 6 / 5]]"
    by (simp add: SolveLQRProblem_def riccati_loop.simps mat_defs ebind_def Let_def upt_rec)
  from h pinv_1x1_keeps_shape inst v show ?thesis by blast
qed

text \<open>
  C2. The gain is computed with \<^verbatim>\<open>np.linalg.inv\<close>, not with the pseudo-inverse of the loop:
  with all four matrices \<open>[[0]]\<close> the loop ends after one iteration, having used the
  pseudo-inverse of the singular \<open>[[0]]\<close>, and the gain computation raises
  \<^verbatim>\<open>LinAlgError\<close> on the same matrix.
\<close>

theorem SolveLQRProblem_singular_gain:
  "SolveLQRProblem pinv_1x1 inv_1x1 [[0]] [[0]] [[0]] [[0]] (1 / 100) 150 = Inl LinAlgError
   \<and> riccati_loop pinv_1x1 [[0]] [[0]] [[0]] [[0]] (zeros 1 1) (1 / 100) 150 [[0]] 0 None
       = Inr ([[0]], 1, Some 0)"
  by (simp add: SolveLQRProblem_def riccati_loop.simps mat_defs ebind_def Let_def)

end
